theory Spec2Isabelle
  imports Complex_Main
begin

section \<open>JavaScript values\<close>

text \<open>
  The damage pipeline (\<^verbatim>\<open>src/module/pipelines/damage-pipeline.mjs\<close>) computes with
  JavaScript numbers that may be absent (\<^verbatim>\<open>number | null\<close> properties, read from
  objects that may lack them). A value is \<open>undefined\<close>, \<open>null\<close>, \<open>NaN\<close> or a finite
  number. Finite numbers are exact rationals here: rounding, infinities and the sign
  of zero of IEEE doubles are not modelled.
\<close>

datatype jsval = Undefined | Null | NaN | Num rat

text \<open>Truthiness, as tested by \<^verbatim>\<open>if (v)\<close>, \<^verbatim>\<open>!v\<close>, \<^verbatim>\<open>a || b\<close> and \<^verbatim>\<open>c ? a : b\<close>.\<close>

fun truthy :: "jsval \<Rightarrow> bool" where
  "truthy Undefined = False"
| "truthy Null = False"
| "truthy NaN = False"
| "truthy (Num r) = (r \<noteq> 0)"

text \<open>\<open>ToNumber\<close>; \<open>None\<close> stands for \<open>NaN\<close>.\<close>

fun toNumber :: "jsval \<Rightarrow> rat option" where
  "toNumber Undefined = None"
| "toNumber Null = Some 0"
| "toNumber NaN = None"
| "toNumber (Num r) = Some r"

fun ofNumber :: "rat option \<Rightarrow> jsval" where
  "ofNumber None = NaN"
| "ofNumber (Some r) = Num r"

text \<open>The operators \<^verbatim>\<open>a + b\<close>, \<^verbatim>\<open>a * b\<close>, \<^verbatim>\<open>-a\<close> and \<^verbatim>\<open>Math.abs(a)\<close> on these values.\<close>

definition js_add :: "jsval \<Rightarrow> jsval \<Rightarrow> jsval" where
  "js_add a b =
     (case toNumber a of
        None \<Rightarrow> NaN
      | Some x \<Rightarrow> (case toNumber b of None \<Rightarrow> NaN | Some y \<Rightarrow> Num (x + y)))"

definition js_mul :: "jsval \<Rightarrow> jsval \<Rightarrow> jsval" where
  "js_mul a b =
     (case toNumber a of
        None \<Rightarrow> NaN
      | Some x \<Rightarrow> (case toNumber b of None \<Rightarrow> NaN | Some y \<Rightarrow> Num (x * y)))"

definition js_neg :: "jsval \<Rightarrow> jsval" where
  "js_neg a = ofNumber (map_option uminus (toNumber a))"

definition js_abs :: "jsval \<Rightarrow> jsval" where
  "js_abs a = ofNumber (map_option abs (toNumber a))"

text \<open>\<^verbatim>\<open>a || b\<close> and \<^verbatim>\<open>a ?? b\<close>.\<close>

definition js_or :: "jsval \<Rightarrow> jsval \<Rightarrow> jsval" where
  "js_or a b = (if truthy a then a else b)"

fun js_nullish :: "jsval \<Rightarrow> jsval \<Rightarrow> jsval" where
  "js_nullish Undefined b = b"
| "js_nullish Null b = b"
| "js_nullish a b = a"

text \<open>
  A plain object read by key: \<^verbatim>\<open>obj[k]\<close> is \<open>undefined\<close> when the key is absent.
  A \<^verbatim>\<open>Map\<close> keeps insertion order; \<^verbatim>\<open>Map.set\<close> overwrites the value of a present
  key in place and appends an absent one.
\<close>

type_synonym jsobject = "(string \<times> jsval) list"

definition js_get :: "jsobject \<Rightarrow> string \<Rightarrow> jsval" where
  "js_get obj k = (case map_of obj k of None \<Rightarrow> Undefined | Some v \<Rightarrow> v)"

type_synonym jsmap = "(string \<times> jsval) list"

fun map_set :: "jsmap \<Rightarrow> string \<Rightarrow> jsval \<Rightarrow> jsmap" where
  "map_set [] k v = [(k, v)]"
| "map_set ((k', v') # m) k v =
     (if k' = k then (k, v) # m else (k', v') # map_set m k v)"

section \<open>Actors and the configuration\<close>

text \<open>
  The actor interface the pipeline consumes: \<^verbatim>\<open>actor.name\<close>,
  \<^verbatim>\<open>actor.system.affinities[type].current\<close> (the table maps a damage type to its
  current affinity index), \<^verbatim>\<open>actor.system.bonuses\<close> (optional; when present it
  holds the tables \<^verbatim>\<open>damage\<close> and \<^verbatim>\<open>incomingDamage\<close>) and the flag read by
  \<^verbatim>\<open>actor.getFlag(Flags.Scope, Flags.Modifier.ScaleIncomingDamage)\<close>.
\<close>

record bonusTables =
  damage :: jsobject
  incomingDamage :: jsobject

record actor =
  name :: string
  affinities :: jsobject
  system_bonuses :: "bonusTables option"
  scaleIncomingDamage :: jsval

text \<open>
  \<^verbatim>\<open>FU.affValue\<close> is declared in \<^verbatim>\<open>helpers/config.mjs\<close>, which is not among the
  sources: the five affinity indices are a parameter of the model. \<open>affValue_wf\<close>
  says that they are five different indices, as an enumeration's are.
\<close>

record affValue =
  vulnerability :: rat
  none :: rat
  resistance :: rat
  immunity :: rat
  absorption :: rat

definition affValue_wf :: "affValue \<Rightarrow> bool" where
  "affValue_wf av =
     distinct [vulnerability av, none av, resistance av, immunity av, absorption av]"

text \<open>
  An instance for concrete runs: the ordered enumeration
  vulnerability, none, resistance, immunity, absorption, numbered so that none is 0.
\<close>

definition affValue_std :: affValue where
  "affValue_std =
     \<lparr>vulnerability = -1, none = 0, resistance = 1, immunity = 2, absorption = 3\<rparr>"

section \<open>DamageRequest\<close>

record baseDamageInfo =
  total :: jsval
  type :: string
  modifierTotal :: jsval

text \<open>
  A target list is \<open>undefined\<close>/\<open>null\<close>, some truthy value that is not an array, or
  an array of actors.
\<close>

datatype targetList = NoTargets | NotArray | TargetArray "actor list"

fun truthyTargets :: "targetList \<Rightarrow> bool" where
  "truthyTargets NoTargets = False"
| "truthyTargets NotArray = True"
| "truthyTargets (TargetArray as) = True"

fun isArray :: "targetList \<Rightarrow> bool" where
  "isArray (TargetArray as) = True"
| "isArray t = False"

text \<open>
  The extra damage descriptor. Every property is optional (the constructor's default is
  \<^verbatim>\<open>{}\<close>): an absent number is \<open>Undefined\<close>, an absent damage type is \<open>None\<close>, an
  absent target list is \<open>NoTargets\<close>, and a flag field holds the truthiness of its
  property.
\<close>

record extraDamageInfo =
  extra_damageType :: "string option"
  damageBonus :: jsval
  extraDamage :: jsval
  hrZero :: bool
  extra_targets :: targetList
  ignoreVulnerable :: bool
  ignoreResistance :: bool
  ignoreImmunities :: bool
  ignoreAbsorption :: bool

definition extraDamageInfo_empty :: extraDamageInfo where
  "extraDamageInfo_empty =
     \<lparr>extra_damageType = None, damageBonus = Undefined, extraDamage = Undefined,
      hrZero = False, extra_targets = NoTargets, ignoreVulnerable = False,
      ignoreResistance = False, ignoreImmunities = False, ignoreAbsorption = False\<rparr>"

text \<open>
  The source descriptor: its name, and the actor it resolves to (\<^verbatim>\<open>context.sourceActor\<close>),
  if any.
\<close>

record sourceInfo =
  source_name :: string
  source_actor :: "actor option"

text \<open>\<^verbatim>\<open>ApplyTargetOverrides\<close>; \<^verbatim>\<open>{}\<close> has both properties \<open>Undefined\<close>.\<close>

record overrides =
  override_affinity :: jsval
  override_total :: jsval

record DamageRequest =
  req_sourceInfo :: sourceInfo
  targets :: targetList
  req_baseDamageInfo :: baseDamageInfo
  req_extraDamageInfo :: extraDamageInfo
  req_damageType :: string
  req_overrides :: overrides
  req_amount :: jsval
  req_traits :: "string set"

text \<open>
  Modelled from the spec: \<^verbatim>\<open>PipelineRequest\<close> (\<^verbatim>\<open>pipeline.mjs\<close>), whose constructor
  line 27 calls, is not among the sources; it stores the source descriptor and the
  targets and starts with an empty set of traits. The rest is the constructor of
  lines 26-33, and \<open>computeAmount\<close> is the expression of line 32.
\<close>

definition computeAmount :: "baseDamageInfo \<Rightarrow> extraDamageInfo \<Rightarrow> jsval" where
  "computeAmount b e =
     (if hrZero e
      then js_add (js_add (damageBonus e) (modifierTotal b)) (js_or (extraDamage e) (Num 0))
      else js_add (js_add (total b) (js_or (damageBonus e) (Num 0)))
             (js_or (extraDamage e) (Num 0)))"

definition newDamageRequest ::
  "sourceInfo \<Rightarrow> targetList \<Rightarrow> baseDamageInfo \<Rightarrow> extraDamageInfo \<Rightarrow> DamageRequest" where
  "newDamageRequest si ts b e =
     \<lparr>req_sourceInfo = si, targets = ts, req_baseDamageInfo = b, req_extraDamageInfo = e,
      req_damageType =
        (case extra_damageType e of
           None \<Rightarrow> type b
         | Some t \<Rightarrow> if t = [] then type b else t),
      req_overrides = \<lparr>override_affinity = Undefined, override_total = Undefined\<rparr>,
      req_amount = computeAmount b e,
      req_traits = {}\<rparr>"

definition allTargets :: "DamageRequest \<Rightarrow> targetList" where
  "allTargets r =
     (if truthyTargets (extra_targets (req_extraDamageInfo r))
      then extra_targets (req_extraDamageInfo r) else targets r)"

text \<open>
  \<^verbatim>\<open>validate()\<close> (lines 45-57) returns a boolean or, from the bare \<^verbatim>\<open>return\<close> of
  line 48, \<open>undefined\<close> (\<open>None\<close>): \<open>undefined\<close> when \<^verbatim>\<open>allTargets\<close> is falsy, \<open>false\<close>
  when \<^verbatim>\<open>targets\<close> is not an array, else \<open>true\<close>. \<open>passed\<close> is the truthiness that
  \<^verbatim>\<open>!request.validate()\<close> tests. The two \<^verbatim>\<open>console.error\<close> lines are not modelled.
\<close>

definition validate :: "DamageRequest \<Rightarrow> bool option" where
  "validate r =
     (if \<not> truthyTargets (allTargets r) then None
      else if \<not> isArray (targets r) then Some False
      else Some True)"

fun passed :: "bool option \<Rightarrow> bool" where
  "passed None = False"
| "passed (Some b) = b"

section \<open>DamagePipelineContext\<close>

text \<open>
  Modelled from the spec: \<^verbatim>\<open>PipelineContext\<close> (\<^verbatim>\<open>pipeline.mjs\<close>) is not among the
  sources. The context is created per (request, actor) pair and carries what the stages
  read from it: the request's \<^verbatim>\<open>amount\<close>, \<^verbatim>\<open>damageType\<close>, \<^verbatim>\<open>overrides\<close>,
  \<^verbatim>\<open>extraDamageInfo\<close> and \<^verbatim>\<open>traits\<close>, the target \<^verbatim>\<open>actor\<close> and the source's actor.
  The subclass constructor (lines 76-80) adds the two empty maps; \<^verbatim>\<open>affinity\<close>,
  \<^verbatim>\<open>affinityMessage\<close> and \<^verbatim>\<open>result\<close> are undefined until a stage assigns them.
\<close>

record DamagePipelineContext =
  amount :: jsval
  damageType :: string
  ctx_overrides :: overrides
  ctx_extraDamageInfo :: extraDamageInfo
  traits :: "string set"
  ctx_actor :: actor
  sourceActor :: "actor option"
  bonuses :: jsmap
  modifiers :: jsmap
  affinity :: jsval
  affinityMessage :: "string option"
  result :: jsval

definition newContext :: "DamageRequest \<Rightarrow> actor \<Rightarrow> DamagePipelineContext" where
  "newContext request a =
     \<lparr>amount = req_amount request, damageType = req_damageType request,
      ctx_overrides = req_overrides request,
      ctx_extraDamageInfo = req_extraDamageInfo request,
      traits = req_traits request, ctx_actor = a,
      sourceActor = source_actor (req_sourceInfo request),
      bonuses = [], modifiers = [],
      affinity = Undefined, affinityMessage = None, result = Undefined\<rparr>"

text \<open>
  The two extension points \<^verbatim>\<open>Hooks.call(FUHooks.DAMAGE_PIPELINE_COLLECT, context)\<close> and
  \<^verbatim>\<open>Hooks.call(FUHooks.DAMAGE_PIPELINE_CALCULATE, context)\<close> hand the mutable context
  to whatever listeners are registered: a context transformer each. With no listener
  registered both are the identity.
\<close>

record hooks =
  onCollect :: "DamagePipelineContext \<Rightarrow> DamagePipelineContext"
  onCalculate :: "DamagePipelineContext \<Rightarrow> DamagePipelineContext"

definition noHooks :: hooks where
  "noHooks = \<lparr>onCollect = (\<lambda>c. c), onCalculate = (\<lambda>c. c)\<rparr>"

section \<open>The stages\<close>

text \<open>
  \<^verbatim>\<open>affinityDamageModifier\<close> (lines 87-93): an object literal with computed keys, in
  source order. Reading a key takes the entry written last for it; a key that is not
  an index of the table, or an affinity that is not a number, reads \<open>undefined\<close>.
\<close>

definition affinityDamageModifier :: "affValue \<Rightarrow> (rat \<times> rat) list" where
  "affinityDamageModifier av =
     [(vulnerability av, 2),
      (none av, 1),
      (resistance av, 1 / 2),
      (immunity av, 0),
      (absorption av, -1)]"

definition modifierOf :: "affValue \<Rightarrow> jsval \<Rightarrow> jsval" where
  "modifierOf av a =
     (case a of
        Num i \<Rightarrow> (case map_of (rev (affinityDamageModifier av)) i of
                    None \<Rightarrow> Undefined
                  | Some m \<Rightarrow> Num m)
      | _ \<Rightarrow> Undefined)"

text \<open>
  \<^verbatim>\<open>resolveAffinity\<close>, lines 100-108: the affinity before the ignore rules, which is
  the override when truthy, else the target's current affinity for the damage type
  when the table has the type, else none.
\<close>

definition lookupAffinity :: "affValue \<Rightarrow> DamagePipelineContext \<Rightarrow> jsval" where
  "lookupAffinity av context =
     (if truthy (override_affinity (ctx_overrides context))
      then override_affinity (ctx_overrides context)
      else (case map_of (affinities (ctx_actor context)) (damageType context) of
              Some current \<Rightarrow> current
            | None \<Rightarrow> Num (none av)))"

text \<open>
  Lines 110-139: the four \<^verbatim>\<open>if\<close> statements, one function each on the pair
  (affinity, affinityMessage), run in source order.
\<close>

definition checkVulnerability ::
  "affValue \<Rightarrow> DamagePipelineContext \<Rightarrow> jsval \<times> string \<Rightarrow> jsval \<times> string" where
  "checkVulnerability av context s =
     (case s of (aff, msg) \<Rightarrow>
        if aff = Num (vulnerability av)
        then (if ignoreVulnerable (ctx_extraDamageInfo context) then Num (none av) else aff,
              ''FU.ChatApplyDamageVulnerable'')
        else (aff, msg))"

definition checkResistance ::
  "affValue \<Rightarrow> DamagePipelineContext \<Rightarrow> jsval \<times> string \<Rightarrow> jsval \<times> string" where
  "checkResistance av context s =
     (case s of (aff, msg) \<Rightarrow>
        if aff = Num (resistance av)
        then (if ignoreResistance (ctx_extraDamageInfo context)
                 \<or> ''ignore-resistance'' \<in> traits context
              then (Num (none av), ''FU.ChatApplyDamageResistantIgnored'')
              else (aff, ''FU.ChatApplyDamageResistant''))
        else (aff, msg))"

definition checkImmunity ::
  "affValue \<Rightarrow> DamagePipelineContext \<Rightarrow> jsval \<times> string \<Rightarrow> jsval \<times> string" where
  "checkImmunity av context s =
     (case s of (aff, msg) \<Rightarrow>
        if aff = Num (immunity av)
        then (if ignoreImmunities (ctx_extraDamageInfo context)
                 \<or> ''ignore-immunity'' \<in> traits context
              then (Num (none av), ''FU.ChatApplyDamageImmuneIgnored'')
              else (aff, ''FU.ChatApplyDamageImmune''))
        else (aff, msg))"

definition checkAbsorption ::
  "affValue \<Rightarrow> DamagePipelineContext \<Rightarrow> jsval \<times> string \<Rightarrow> jsval \<times> string" where
  "checkAbsorption av context s =
     (case s of (aff, msg) \<Rightarrow>
        if aff = Num (absorption av)
        then (if ignoreAbsorption (ctx_extraDamageInfo context)
              then (Num (none av), msg)
              else (aff, ''FU.ChatApplyDamageAbsorb''))
        else (aff, msg))"

definition resolveAffinity :: "affValue \<Rightarrow> DamagePipelineContext \<Rightarrow> DamagePipelineContext" where
  "resolveAffinity av context =
     (case checkAbsorption av context
             (checkImmunity av context
               (checkResistance av context
                 (checkVulnerability av context
                   (lookupAffinity av context, ''FU.ChatApplyDamageNormal'')))) of
        (aff, msg) \<Rightarrow> context\<lparr>affinity := aff, affinityMessage := Some msg\<rparr>)"

text \<open>
  \<^verbatim>\<open>overrideResult\<close> (lines 150-156): the updated context and the returned boolean.
\<close>

definition overrideResult :: "DamagePipelineContext \<Rightarrow> DamagePipelineContext \<times> bool" where
  "overrideResult context =
     (if truthy (override_total (ctx_overrides context))
      then (context\<lparr>result := override_total (ctx_overrides context)\<rparr>, True)
      else (context, False))"

text \<open>\<^verbatim>\<open>collectIncrements\<close> (lines 162-178): first the source's table, then the target's.\<close>

definition collectIncrements :: "DamagePipelineContext \<Rightarrow> DamagePipelineContext" where
  "collectIncrements context =
     (let c1 =
        (case sourceActor context of
           None \<Rightarrow> context
         | Some src \<Rightarrow>
             (case system_bonuses src of
                None \<Rightarrow> context
              | Some b \<Rightarrow>
                  context\<lparr>bonuses :=
                    map_set
                      (map_set (bonuses context) ''outgoingDamage.all''
                         (js_get (damage b) ''all''))
                      ''outgoingDamage.damageType''
                      (js_nullish (js_get (damage b) (damageType context)) (Num 0))\<rparr>))
      in (case system_bonuses (ctx_actor c1) of
            None \<Rightarrow> c1
          | Some b \<Rightarrow>
              c1\<lparr>bonuses :=
                map_set
                  (map_set (bonuses c1) ''incomingDamage.all''
                     (js_get (incomingDamage b) ''all''))
                  ''incomingDamage.damageType''
                  (js_nullish (js_get (incomingDamage b) (damageType c1)) (Num 0))\<rparr>))"

text \<open>
  \<^verbatim>\<open>collectMultipliers\<close> (lines 185-198): the target's scale flag when truthy, then the
  affinity multiplier, then the collect hook.
\<close>

definition collectMultipliers ::
  "hooks \<Rightarrow> affValue \<Rightarrow> DamagePipelineContext \<Rightarrow> DamagePipelineContext" where
  "collectMultipliers h av context =
     (let scale = scaleIncomingDamage (ctx_actor context);
          c1 = (if truthy scale
                then context\<lparr>modifiers := map_set (modifiers context) ''scaleIncomingDamage'' scale\<rparr>
                else context);
          c2 = c1\<lparr>modifiers := map_set (modifiers c1) ''affinity'' (modifierOf av (affinity c1))\<rparr>
      in onCollect h c2)"

text \<open>
  \<^verbatim>\<open>calculateResult\<close> (lines 205-220): the two loops over the maps' values, in
  insertion order, then the assignment and the calculate hook.
\<close>

definition foldResult :: "jsval \<Rightarrow> jsmap \<Rightarrow> jsmap \<Rightarrow> jsval" where
  "foldResult start bs ms = foldl js_mul (foldl js_add start (map snd bs)) (map snd ms)"

definition calculateResult :: "hooks \<Rightarrow> DamagePipelineContext \<Rightarrow> DamagePipelineContext" where
  "calculateResult h context =
     onCalculate h
       (context\<lparr>result := foldResult (amount context) (bonuses context) (modifiers context)\<rparr>)"

section \<open>process\<close>

text \<open>
  Lines 238-244: the stages run on a fresh context for one target.
\<close>

definition runStages ::
  "hooks \<Rightarrow> affValue \<Rightarrow> DamageRequest \<Rightarrow> actor \<Rightarrow> DamagePipelineContext" where
  "runStages h av request a =
     (case overrideResult (resolveAffinity av (newContext request a)) of
        (context, True) \<Rightarrow> context
      | (context, False) \<Rightarrow>
          calculateResult h (collectMultipliers h av (collectIncrements context)))"

text \<open>
  What \<^verbatim>\<open>process\<close> does to the outside: a call of
  \<^verbatim>\<open>actor.modifyTokenAttribute('resources.hp', delta, true)\<close> and a call of
  \<^verbatim>\<open>ChatMessage.create\<close> with the data handed to the chat template. The legacy hooks
  (\<^verbatim>\<open>DAMAGE_APPLY_BEFORE\<close>, \<^verbatim>\<open>DAMAGE_APPLY_TARGET\<close>) get data objects built for them
  and are for observation only; template rendering and localisation are opaque. None
  of them is modelled.
\<close>

record chatData =
  chat_flavor :: jsval
  chat_message :: "string option"
  chat_actor :: string
  chat_damage :: jsval
  chat_type :: string
  chat_from :: string

datatype effect =
    ModifyHp actor jsval
  | ChatCreate actor chatData

datatype outcome = Rejected string | Thrown string | Resolved

text \<open>Lines 253-273: the two updates pushed for one target.\<close>

definition targetUpdates :: "DamageRequest \<Rightarrow> actor \<Rightarrow> DamagePipelineContext \<Rightarrow> effect list" where
  "targetUpdates request a context =
     (let damageTaken = js_neg (result context) in
      [ModifyHp a damageTaken,
       ChatCreate a
         \<lparr>chat_flavor = affinity context,
          chat_message = affinityMessage context,
          chat_actor = name a,
          chat_damage = js_abs damageTaken,
          chat_type = damageType context,
          chat_from = source_name (req_sourceInfo request)\<rparr>])"

text \<open>
  The loop of lines 236-274 over the remaining targets, with the updates pushed so
  far. The \<^verbatim>\<open>throw\<close> of line 246 ends the call; the effects of earlier targets have
  been issued by then.
\<close>

fun processTargets ::
  "hooks \<Rightarrow> affValue \<Rightarrow> DamageRequest \<Rightarrow> actor list \<Rightarrow> effect list \<Rightarrow> effect list \<times> outcome" where
  "processTargets h av request [] updates = (updates, Resolved)"
| "processTargets h av request (a # rest) updates =
     (let context = runStages h av request a in
      if result context = Undefined
      then (updates, Thrown ''Failed to generate result during pipeline'')
      else processTargets h av request rest (updates @ targetUpdates request a context))"

text \<open>
  \<^verbatim>\<open>process\<close> (lines 226-276). After a successful validation \<^verbatim>\<open>targets\<close> is an array;
  \<^verbatim>\<open>for ... of\<close> over anything else would throw a \<^verbatim>\<open>TypeError\<close>.
\<close>

definition process :: "hooks \<Rightarrow> affValue \<Rightarrow> DamageRequest \<Rightarrow> effect list \<times> outcome" where
  "process h av request =
     (if \<not> passed (validate request) then ([], Rejected ''Request was not valid'')
      else (case targets request of
              TargetArray as \<Rightarrow> processTargets h av request as []
            | _ \<Rightarrow> ([], Thrown ''TypeError'')))"

section \<open>Reading runs\<close>

text \<open>
  The pool updates of an effect list, as (actor, delta) pairs in the order issued, and
  the actors of the chat records.
\<close>

fun hpDeltas :: "effect list \<Rightarrow> (actor \<times> jsval) list" where
  "hpDeltas [] = []"
| "hpDeltas (ModifyHp a d # es) = (a, d) # hpDeltas es"
| "hpDeltas (ChatCreate a c # es) = hpDeltas es"

fun chatActors :: "effect list \<Rightarrow> actor list" where
  "chatActors [] = []"
| "chatActors (ModifyHp a d # es) = chatActors es"
| "chatActors (ChatCreate a c # es) = a # chatActors es"

text \<open>\<^verbatim>\<open>typeof v === 'number'\<close>.\<close>

fun isNumber :: "jsval \<Rightarrow> bool" where
  "isNumber NaN = True"
| "isNumber (Num r) = True"
| "isNumber v = False"

text \<open>A request whose extra damage descriptor carries the target-list override \<open>X\<close>.\<close>

definition withExtraTargets :: "DamageRequest \<Rightarrow> targetList \<Rightarrow> DamageRequest" where
  "withExtraTargets r X =
     r\<lparr>req_extraDamageInfo := (req_extraDamageInfo r)\<lparr>extra_targets := X\<rparr>\<rparr>"

text \<open>
  Concrete data for running the model: a fire attack of base total \<open>t\<close> and modifier
  total 3 from a source without an actor, on one target whose fire affinity has index
  \<open>i\<close>; the context of that target for the base total 10 and a set of traits; and an
  attack of base total 10 whose source and target have bonus tables (outgoing 2 for
  all types and 3 for fire, incoming 1 for all types).
\<close>

definition fireTarget :: "rat \<Rightarrow> actor" where
  "fireTarget i =
     \<lparr>name = ''target'', affinities = [(''fire'', Num i)], system_bonuses = None,
      scaleIncomingDamage = Undefined\<rparr>"

definition fireAttack :: "jsval \<Rightarrow> rat \<Rightarrow> extraDamageInfo \<Rightarrow> DamageRequest" where
  "fireAttack t i e =
     newDamageRequest \<lparr>source_name = ''attack'', source_actor = None\<rparr>
       (TargetArray [fireTarget i])
       \<lparr>total = t, type = ''fire'', modifierTotal = Num 3\<rparr> e"

definition fireContext :: "rat \<Rightarrow> extraDamageInfo \<Rightarrow> string set \<Rightarrow> DamagePipelineContext" where
  "fireContext i e ts = newContext ((fireAttack (Num 10) i e)\<lparr>req_traits := ts\<rparr>) (fireTarget i)"

definition bonusSource :: actor where
  "bonusSource =
     \<lparr>name = ''source'', affinities = [],
      system_bonuses =
        Some \<lparr>damage = [(''all'', Num 2), (''fire'', Num 3)], incomingDamage = [(''all'', Num 0)]\<rparr>,
      scaleIncomingDamage = Undefined\<rparr>"

definition bonusTarget :: "rat \<Rightarrow> actor" where
  "bonusTarget i =
     \<lparr>name = ''target'', affinities = [(''fire'', Num i)],
      system_bonuses =
        Some \<lparr>damage = [(''all'', Num 0)], incomingDamage = [(''all'', Num 1)]\<rparr>,
      scaleIncomingDamage = Undefined\<rparr>"

definition bonusAttack :: "rat \<Rightarrow> DamageRequest" where
  "bonusAttack i =
     newDamageRequest \<lparr>source_name = ''source'', source_actor = Some bonusSource\<rparr>
       (TargetArray [bonusTarget i])
       \<lparr>total = Num 10, type = ''fire'', modifierTotal = Num 0\<rparr> extraDamageInfo_empty"

text \<open>
  A listener of the collect hook that records one more modifier, a halving named
  \<open>halved\<close>.
\<close>

definition halvingListener :: hooks where
  "halvingListener =
     \<lparr>onCollect = (\<lambda>c. c\<lparr>modifiers := map_set (modifiers c) ''halved'' (Num (1 / 2))\<rparr>),
      onCalculate = (\<lambda>c. c)\<rparr>"

text \<open>Requests that fail validation, and a request with an override total.\<close>

definition notArrayAttack :: DamageRequest where
  "notArrayAttack =
     (fireAttack (Num 10) 0 (extraDamageInfo_empty\<lparr>extra_targets := TargetArray [fireTarget 0]\<rparr>))
       \<lparr>targets := NotArray\<rparr>"

definition noTargetsAttack :: DamageRequest where
  "noTargetsAttack = (fireAttack (Num 10) 0 extraDamageInfo_empty)\<lparr>targets := NoTargets\<rparr>"

definition overrideAttack :: "jsval \<Rightarrow> DamageRequest" where
  "overrideAttack t =
     (fireAttack (Num 10) 0 extraDamageInfo_empty)
       \<lparr>req_overrides := \<lparr>override_affinity = Undefined, override_total = t\<rparr>\<rparr>"



section \<open>Auxiliary facts\<close>

subsection \<open>Unfolding the examples and the stages\<close>

lemmas example_defs =
  fireContext_def fireAttack_def fireTarget_def bonusSource_def bonusTarget_def bonusAttack_def
  extraDamageInfo_empty_def affValue_std_def newDamageRequest_def computeAmount_def newContext_def
  js_or_def js_add_def js_mul_def js_neg_def js_abs_def js_get_def

lemmas stage_defs =
  lookupAffinity_def resolveAffinity_def checkVulnerability_def checkResistance_def
  checkImmunity_def checkAbsorption_def overrideResult_def collectIncrements_def
  collectMultipliers_def calculateResult_def foldResult_def runStages_def noHooks_def
  modifierOf_def affinityDamageModifier_def


subsection \<open>Folds and maps\<close>

lemma foldl_js_add_Num: "foldl js_add (Num x) (map Num bs) = Num (x + sum_list bs)"
  by (induction bs arbitrary: x) (simp_all add: js_add_def add.assoc)

lemma foldl_js_mul_Num: "foldl js_mul (Num x) (map Num ms) = Num (x * prod_list ms)"
  by (induction ms arbitrary: x) (simp_all add: js_mul_def mult.assoc)

lemma foldResult_Num:
  "map snd bs = map Num xs \<Longrightarrow> map snd ms = map Num ys \<Longrightarrow>
   foldResult (Num x) bs ms = Num ((x + sum_list xs) * prod_list ys)"
  by (simp add: foldResult_def foldl_js_add_Num foldl_js_mul_Num)

lemma map_set_mem: "(k, v) \<in> set (map_set m k v)"
  by (induction m k v rule: map_set.induct) auto

lemma map_of_map_set: "map_of (map_set m k v) k = Some v"
  by (induction m k v rule: map_set.induct) auto

subsection \<open>What each stage leaves alone\<close>

lemma overrideResult_False:
  "\<not> truthy (override_total (ctx_overrides c)) \<Longrightarrow> overrideResult c = (c, False)"
  by (simp add: overrideResult_def)

lemma overrideResult_True:
  "truthy (override_total (ctx_overrides c)) \<Longrightarrow>
   overrideResult c = (c\<lparr>result := override_total (ctx_overrides c)\<rparr>, True)"
  by (simp add: overrideResult_def)

lemma resolveAffinity_fields:
  "amount (resolveAffinity av c) = amount c"
  "damageType (resolveAffinity av c) = damageType c"
  "ctx_overrides (resolveAffinity av c) = ctx_overrides c"
  "ctx_extraDamageInfo (resolveAffinity av c) = ctx_extraDamageInfo c"
  "traits (resolveAffinity av c) = traits c"
  "ctx_actor (resolveAffinity av c) = ctx_actor c"
  "sourceActor (resolveAffinity av c) = sourceActor c"
  "bonuses (resolveAffinity av c) = bonuses c"
  "modifiers (resolveAffinity av c) = modifiers c"
  "result (resolveAffinity av c) = result c"
  by (simp_all add: resolveAffinity_def split: prod.split)

lemma collectIncrements_fields:
  "amount (collectIncrements c) = amount c"
  "damageType (collectIncrements c) = damageType c"
  "ctx_actor (collectIncrements c) = ctx_actor c"
  "modifiers (collectIncrements c) = modifiers c"
  "affinity (collectIncrements c) = affinity c"
  "affinityMessage (collectIncrements c) = affinityMessage c"
  by (simp_all add: collectIncrements_def Let_def split: option.split)

lemma collectMultipliers_noHooks_fields:
  "amount (collectMultipliers noHooks av c) = amount c"
  "damageType (collectMultipliers noHooks av c) = damageType c"
  "bonuses (collectMultipliers noHooks av c) = bonuses c"
  "affinity (collectMultipliers noHooks av c) = affinity c"
  "affinityMessage (collectMultipliers noHooks av c) = affinityMessage c"
  by (simp_all add: collectMultipliers_def noHooks_def Let_def)

lemma collectMultipliers_noHooks_affinity:
  "(''affinity'', modifierOf av (affinity c)) \<in> set (modifiers (collectMultipliers noHooks av c))"
  by (simp add: collectMultipliers_def noHooks_def Let_def map_set_mem)

lemma calculateResult_no_listener:
  "onCalculate h = (\<lambda>c. c) \<Longrightarrow>
   calculateResult h c = c\<lparr>result := foldResult (amount c) (bonuses c) (modifiers c)\<rparr>"
  by (simp add: calculateResult_def)

lemma calculateResult_noHooks:
  "calculateResult noHooks c = c\<lparr>result := foldResult (amount c) (bonuses c) (modifiers c)\<rparr>"
  by (simp add: calculateResult_def noHooks_def)

lemma hooks_noHooks:
  "onCollect h = (\<lambda>c. c) \<Longrightarrow> onCalculate h = (\<lambda>c. c) \<Longrightarrow> h = noHooks"
  by (simp add: noHooks_def)

lemma runStages_calc:
  assumes "\<not> truthy (override_total (req_overrides r))"
  shows "runStages h av r a =
    calculateResult h (collectMultipliers h av
       (collectIncrements (resolveAffinity av (newContext r a))))"
proof -
  have "ctx_overrides (resolveAffinity av (newContext r a)) = req_overrides r"
    by (simp add: resolveAffinity_fields newContext_def)
  with assms show ?thesis
    by (simp add: runStages_def overrideResult_False)
qed

subsection \<open>The ignore rules, one at a time\<close>

lemma check_keeps_or_none:
  "fst (checkVulnerability av c s) = fst s \<or> fst (checkVulnerability av c s) = Num (none av)"
  "fst (checkResistance av c s) = fst s \<or> fst (checkResistance av c s) = Num (none av)"
  "fst (checkImmunity av c s) = fst s \<or> fst (checkImmunity av c s) = Num (none av)"
  "fst (checkAbsorption av c s) = fst s \<or> fst (checkAbsorption av c s) = Num (none av)"
  by (cases s; simp add: checkVulnerability_def checkResistance_def
      checkImmunity_def checkAbsorption_def)+

lemma check_none_stays:
  assumes "fst s = Num (none av)"
  shows "fst (checkVulnerability av c s) = Num (none av)"
    and "fst (checkResistance av c s) = Num (none av)"
    and "fst (checkImmunity av c s) = Num (none av)"
    and "fst (checkAbsorption av c s) = Num (none av)"
  using assms
  by (cases s; simp add: checkVulnerability_def checkResistance_def
      checkImmunity_def checkAbsorption_def)+

lemma check_ignored:
  "fst s = Num (vulnerability av) \<Longrightarrow> ignoreVulnerable (ctx_extraDamageInfo c) \<Longrightarrow>
     fst (checkVulnerability av c s) = Num (none av)"
  "fst s = Num (resistance av) \<Longrightarrow>
     ignoreResistance (ctx_extraDamageInfo c) \<or> ''ignore-resistance'' \<in> traits c \<Longrightarrow>
     fst (checkResistance av c s) = Num (none av)"
  "fst s = Num (immunity av) \<Longrightarrow>
     ignoreImmunities (ctx_extraDamageInfo c) \<or> ''ignore-immunity'' \<in> traits c \<Longrightarrow>
     fst (checkImmunity av c s) = Num (none av)"
  "fst s = Num (absorption av) \<Longrightarrow> ignoreAbsorption (ctx_extraDamageInfo c) \<Longrightarrow>
     fst (checkAbsorption av c s) = Num (none av)"
  by (cases s; simp add: checkVulnerability_def checkResistance_def
      checkImmunity_def checkAbsorption_def)+

lemma check_not_ignored:
  "\<not> ignoreVulnerable (ctx_extraDamageInfo c) \<Longrightarrow> fst (checkVulnerability av c s) = fst s"
  "\<not> ignoreResistance (ctx_extraDamageInfo c) \<Longrightarrow> ''ignore-resistance'' \<notin> traits c \<Longrightarrow>
     fst (checkResistance av c s) = fst s"
  "\<not> ignoreImmunities (ctx_extraDamageInfo c) \<Longrightarrow> ''ignore-immunity'' \<notin> traits c \<Longrightarrow>
     fst (checkImmunity av c s) = fst s"
  "\<not> ignoreAbsorption (ctx_extraDamageInfo c) \<Longrightarrow> fst (checkAbsorption av c s) = fst s"
  by (cases s; simp add: checkVulnerability_def checkResistance_def
      checkImmunity_def checkAbsorption_def)+

lemma affinity_resolveAffinity:
  "affinity (resolveAffinity av c) =
     fst (checkAbsorption av c (checkImmunity av c (checkResistance av c
       (checkVulnerability av c (lookupAffinity av c, ''FU.ChatApplyDamageNormal'')))))"
  by (simp add: resolveAffinity_def split: prod.split)

subsection \<open>Results are numbers\<close>

lemma isNumber_js_mul: "isNumber (js_mul a b)"
  by (simp add: js_mul_def split: option.split)

lemma isNumber_foldl_js_mul: "isNumber x \<Longrightarrow> isNumber (foldl js_mul x ms)"
  by (induction ms arbitrary: x) (simp_all add: isNumber_js_mul)

lemma isNumber_foldResult: "ms \<noteq> [] \<Longrightarrow> isNumber (foldResult x bs ms)"
  by (cases ms) (simp_all add: foldResult_def isNumber_foldl_js_mul isNumber_js_mul)

lemma truthy_isNumber: "truthy v \<Longrightarrow> isNumber v"
  by (cases v) simp_all

lemma runStages_override:
  assumes "truthy (override_total (req_overrides r))"
  shows "runStages h av r a =
    (resolveAffinity av (newContext r a))\<lparr>result := override_total (req_overrides r)\<rparr>"
proof -
  have "ctx_overrides (resolveAffinity av (newContext r a)) = req_overrides r"
    by (simp add: resolveAffinity_fields newContext_def)
  with assms show ?thesis
    by (simp add: runStages_def overrideResult_True)
qed

lemma runStages_noHooks_isNumber: "isNumber (result (runStages noHooks av r a))"
proof (cases "truthy (override_total (req_overrides r))")
  case True
  then show ?thesis
    by (simp add: runStages_override truthy_isNumber)
next
  case False
  have "modifiers (collectMultipliers noHooks av c) \<noteq> []" for c
    using collectMultipliers_noHooks_affinity [of av c] by auto
  with False show ?thesis
    by (simp add: runStages_calc calculateResult_noHooks isNumber_foldResult)
qed

lemma isNumber_not_Undefined: "isNumber v \<Longrightarrow> v \<noteq> Undefined"
  by auto

subsection \<open>The loop over the targets\<close>

lemma processTargets_Resolved:
  "processTargets h av r as ups = (es, Resolved) \<Longrightarrow>
   es = ups @ concat (map (\<lambda>a. targetUpdates r a (runStages h av r a)) as)"
proof (induction as arbitrary: ups)
  case Nil
  then show ?case by simp
next
  case (Cons a as)
  from Cons.prems have "result (runStages h av r a) \<noteq> Undefined"
    by (auto simp add: Let_def split: if_splits)
  with Cons.prems
  have "processTargets h av r as (ups @ targetUpdates r a (runStages h av r a)) = (es, Resolved)"
    by (simp add: Let_def)
  from Cons.IH [OF this] show ?case
    by simp
qed

lemma processTargets_not_Rejected: "snd (processTargets h av r as ups) \<noteq> Rejected m"
  by (induction as arbitrary: ups) (simp_all add: Let_def)

lemma processTargets_noHooks:
  "processTargets noHooks av r as ups =
     (ups @ concat (map (\<lambda>a. targetUpdates r a (runStages noHooks av r a)) as), Resolved)"
proof (induction as arbitrary: ups)
  case Nil
  then show ?case by simp
next
  case (Cons a as)
  have "result (runStages noHooks av r a) \<noteq> Undefined"
    by (rule isNumber_not_Undefined) (rule runStages_noHooks_isNumber)
  with Cons show ?case
    by (simp add: Let_def)
qed

lemma hpDeltas_append: "hpDeltas (xs @ ys) = hpDeltas xs @ hpDeltas ys"
  by (induction xs rule: hpDeltas.induct) simp_all

lemma chatActors_append: "chatActors (xs @ ys) = chatActors xs @ chatActors ys"
  by (induction xs rule: chatActors.induct) simp_all

lemma hpDeltas_targetUpdates:
  "hpDeltas (concat (map (\<lambda>a. targetUpdates r a (f a)) as)) =
     map (\<lambda>a. (a, js_neg (result (f a)))) as"
  by (induction as) (simp_all add: targetUpdates_def Let_def)

lemma chatActors_targetUpdates:
  "chatActors (concat (map (\<lambda>a. targetUpdates r a (f a)) as)) = as"
  by (induction as) (simp_all add: targetUpdates_def Let_def)

lemma validate_passed:
  "passed (validate r) = (truthyTargets (allTargets r) \<and> isArray (targets r))"
  by (simp add: validate_def)

lemma isArray_TargetArray: "isArray t \<Longrightarrow> \<exists>as. t = TargetArray as"
  by (cases t) simp_all

lemma passed_targets: "passed (validate r) \<Longrightarrow> \<exists>as. targets r = TargetArray as"
  by (simp add: validate_passed isArray_TargetArray)

lemma process_valid:
  "targets r = TargetArray as \<Longrightarrow> process h av r = processTargets h av r as []"
  by (simp add: process_def validate_def allTargets_def)

subsection \<open>Absorption\<close>

lemma wf_neq:
  assumes "affValue_wf av"
  shows "absorption av \<noteq> vulnerability av" "absorption av \<noteq> resistance av"
    "absorption av \<noteq> immunity av" "absorption av \<noteq> none av"
    "none av \<noteq> resistance av" "none av \<noteq> immunity av" "none av \<noteq> absorption av"
    "vulnerability av \<noteq> none av"
  using assms by (auto simp add: affValue_wf_def)




lemma process_noHooks_Resolved:
  "targets r = TargetArray as \<Longrightarrow>
   process noHooks av r =
     (concat (map (\<lambda>a. targetUpdates r a (runStages noHooks av r a)) as), Resolved)"
  by (simp only: process_valid processTargets_noHooks append_Nil)

subsection \<open>The target-list override\<close>

text \<open>
  Every stage commutes with setting the target-list override of the context's extra
  damage descriptor: no stage reads it.
\<close>

lemma lookupAffinity_extra_targets:
  "lookupAffinity av (c\<lparr>ctx_extraDamageInfo := (ctx_extraDamageInfo c)\<lparr>extra_targets := X\<rparr>\<rparr>)
     = lookupAffinity av c"
  by (simp add: lookupAffinity_def)

lemma check_extra_targets:
  "checkVulnerability av (c\<lparr>ctx_extraDamageInfo := (ctx_extraDamageInfo c)\<lparr>extra_targets := X\<rparr>\<rparr>) s
     = checkVulnerability av c s"
  "checkResistance av (c\<lparr>ctx_extraDamageInfo := (ctx_extraDamageInfo c)\<lparr>extra_targets := X\<rparr>\<rparr>) s
     = checkResistance av c s"
  "checkImmunity av (c\<lparr>ctx_extraDamageInfo := (ctx_extraDamageInfo c)\<lparr>extra_targets := X\<rparr>\<rparr>) s
     = checkImmunity av c s"
  "checkAbsorption av (c\<lparr>ctx_extraDamageInfo := (ctx_extraDamageInfo c)\<lparr>extra_targets := X\<rparr>\<rparr>) s
     = checkAbsorption av c s"
  by (cases s; simp add: checkVulnerability_def checkResistance_def checkImmunity_def
      checkAbsorption_def)+

lemma resolveAffinity_extra_targets:
  "resolveAffinity av (c\<lparr>ctx_extraDamageInfo := (ctx_extraDamageInfo c)\<lparr>extra_targets := X\<rparr>\<rparr>)
     = (resolveAffinity av c)
         \<lparr>ctx_extraDamageInfo := (ctx_extraDamageInfo (resolveAffinity av c))\<lparr>extra_targets := X\<rparr>\<rparr>"
  by (simp add: resolveAffinity_def lookupAffinity_extra_targets check_extra_targets
      split: prod.split)

lemma collectIncrements_extra_targets:
  "collectIncrements (c\<lparr>ctx_extraDamageInfo := (ctx_extraDamageInfo c)\<lparr>extra_targets := X\<rparr>\<rparr>)
     = (collectIncrements c)
         \<lparr>ctx_extraDamageInfo := (ctx_extraDamageInfo (collectIncrements c))\<lparr>extra_targets := X\<rparr>\<rparr>"
  by (simp add: collectIncrements_def Let_def split: option.split)

lemma collectMultipliers_extra_targets:
  "collectMultipliers noHooks av
     (c\<lparr>ctx_extraDamageInfo := (ctx_extraDamageInfo c)\<lparr>extra_targets := X\<rparr>\<rparr>)
     = (collectMultipliers noHooks av c)
         \<lparr>ctx_extraDamageInfo :=
            (ctx_extraDamageInfo (collectMultipliers noHooks av c))\<lparr>extra_targets := X\<rparr>\<rparr>"
  by (simp add: collectMultipliers_def noHooks_def Let_def)

lemma calculateResult_extra_targets:
  "calculateResult noHooks
     (c\<lparr>ctx_extraDamageInfo := (ctx_extraDamageInfo c)\<lparr>extra_targets := X\<rparr>\<rparr>)
     = (calculateResult noHooks c)
         \<lparr>ctx_extraDamageInfo :=
            (ctx_extraDamageInfo (calculateResult noHooks c))\<lparr>extra_targets := X\<rparr>\<rparr>"
  by (simp add: calculateResult_noHooks)

lemma newContext_extra_targets:
  "newContext (withExtraTargets r X) a
     = (newContext r a)\<lparr>ctx_extraDamageInfo := (ctx_extraDamageInfo (newContext r a))\<lparr>extra_targets := X\<rparr>\<rparr>"
  by (simp add: newContext_def withExtraTargets_def)

lemma runStages_extra_targets:
  "runStages noHooks av (withExtraTargets r X) a
     = (runStages noHooks av r a)
         \<lparr>ctx_extraDamageInfo :=
            (ctx_extraDamageInfo (runStages noHooks av r a))\<lparr>extra_targets := X\<rparr>\<rparr>"
  by (simp add: runStages_def newContext_extra_targets resolveAffinity_extra_targets
      overrideResult_def collectIncrements_extra_targets collectMultipliers_extra_targets
      calculateResult_extra_targets)

lemma targetUpdates_extra_targets:
  "targetUpdates (withExtraTargets r X) a (runStages noHooks av (withExtraTargets r X) a)
     = targetUpdates r a (runStages noHooks av r a)"
proof -
  have c: "result (runStages noHooks av (withExtraTargets r X) a) = result (runStages noHooks av r a)"
    "affinity (runStages noHooks av (withExtraTargets r X) a) = affinity (runStages noHooks av r a)"
    "affinityMessage (runStages noHooks av (withExtraTargets r X) a)
       = affinityMessage (runStages noHooks av r a)"
    "damageType (runStages noHooks av (withExtraTargets r X) a)
       = damageType (runStages noHooks av r a)"
    by (simp_all add: runStages_extra_targets)
  have s: "req_sourceInfo (withExtraTargets r X) = req_sourceInfo r"
    by (simp add: withExtraTargets_def)
  show ?thesis
    unfolding targetUpdates_def by (simp only: c s)
qed

lemma withExtraTargets_targets: "targets (withExtraTargets r X) = targets r"
  by (simp add: withExtraTargets_def)

lemma process_not_array:
  "\<not> isArray (targets r) \<Longrightarrow> process h av r = ([], Rejected ''Request was not valid'')"
  by (simp add: process_def validate_def)

lemma process_extra_targets:
  "process noHooks av (withExtraTargets r X) = process noHooks av r"
proof (cases "targets r")
  case (TargetArray as)
  then have "targets (withExtraTargets r X) = TargetArray as"
    by (simp add: withExtraTargets_targets)
  with TargetArray show ?thesis
    by (simp only: process_noHooks_Resolved targetUpdates_extra_targets)
next
  case NoTargets
  then show ?thesis
    by (simp add: process_not_array withExtraTargets_targets)
next
  case NotArray
  then show ?thesis
    by (simp add: process_not_array withExtraTargets_targets)
qed

subsection \<open>The override total, the amount and the vulnerable message\<close>

lemma override_total_truthy:
  assumes "truthy (override_total (req_overrides r))"
  shows "result (runStages h av r a) = override_total (req_overrides r)
    \<and> bonuses (runStages h av r a) = [] \<and> modifiers (runStages h av r a) = []"
  using assms
  by (simp add: runStages_override resolveAffinity_fields newContext_def)

lemma computeAmount_hrZero:
  assumes "hrZero e" and "damageBonus e = Num d" and "modifierTotal b = Num m"
  shows "extraDamage e = Num x \<Longrightarrow> computeAmount b e = Num (d + m + x)"
    and "extraDamage e = Undefined \<Longrightarrow> computeAmount b e = Num (d + m)"
  using assms by (simp_all add: computeAmount_def js_add_def js_or_def)

lemma computeAmount_hrZero_no_bonus:
  assumes "hrZero e" and "damageBonus e = Undefined"
  shows "computeAmount b e = NaN"
  using assms by (simp add: computeAmount_def js_add_def)

lemma computeAmount_default:
  assumes "\<not> hrZero e" and "total b = Num t"
  shows "damageBonus e = Num d \<Longrightarrow> extraDamage e = Num x \<Longrightarrow> computeAmount b e = Num (t + d + x)"
    and "damageBonus e = Undefined \<Longrightarrow> extraDamage e = Num x \<Longrightarrow> computeAmount b e = Num (t + x)"
    and "damageBonus e = Num d \<Longrightarrow> extraDamage e = Undefined \<Longrightarrow> computeAmount b e = Num (t + d)"
    and "damageBonus e = Undefined \<Longrightarrow> extraDamage e = Undefined \<Longrightarrow> computeAmount b e = Num t"
  using assms by (simp_all add: computeAmount_def js_add_def js_or_def)

lemma vulnerable_ignored_message:
  assumes "affValue_wf av" and "lookupAffinity av c = Num (vulnerability av)"
    and "ignoreVulnerable (ctx_extraDamageInfo c)"
  shows "affinityMessage (resolveAffinity av c) = Some ''FU.ChatApplyDamageVulnerable''"
  using assms wf_neq [OF assms(1)]
  by (simp add: resolveAffinity_def checkVulnerability_def checkResistance_def
      checkImmunity_def checkAbsorption_def)

section \<open>The claims\<close>

text \<open>
  C1. On the path that does not take the override, with no listener on the calculate
  hook, the result is the fold of the collected bonuses by addition followed by the
  fold of the collected modifiers by multiplication, starting from the context's
  amount, whatever a listener of the collect hook has added to the two maps; for
  numeric entries this is (amount + sum of the bonuses) times the product of the
  modifiers. With no listener on the collect hook either, the amount is the request's
  and the modifier map has the entry \<open>affinity\<close>, whose value is the multiplier of
  the resolved affinity.
\<close>

theorem calculateResult_formula:
  assumes "\<not> truthy (override_total (req_overrides r))"
    and "onCalculate h = (\<lambda>c. c)"
    and "c = runStages h av r a"
  shows "result c = foldl js_mul (foldl js_add (amount c) (map snd (bonuses c))) (map snd (modifiers c))
    \<and> (\<forall>x bs ms. amount c = Num x \<and> map snd (bonuses c) = map Num bs
          \<and> map snd (modifiers c) = map Num ms
        \<longrightarrow> result c = Num ((x + sum_list bs) * prod_list ms))
    \<and> (onCollect h = (\<lambda>c. c)
        \<longrightarrow> amount c = req_amount r
          \<and> (''affinity'', modifierOf av (affinity c)) \<in> set (modifiers c))"
proof -
  define c0 where "c0 = collectMultipliers h av
       (collectIncrements (resolveAffinity av (newContext r a)))"
  have c: "c = c0\<lparr>result := foldResult (amount c0) (bonuses c0) (modifiers c0)\<rparr>"
    using assms by (simp add: runStages_calc calculateResult_no_listener c0_def)
  have res: "result c = foldResult (amount c) (bonuses c) (modifiers c)"
    by (simp add: c)
  have num: "\<forall>x bs ms. amount c = Num x \<and> map snd (bonuses c) = map Num bs
          \<and> map snd (modifiers c) = map Num ms
        \<longrightarrow> result c = Num ((x + sum_list bs) * prod_list ms)"
    by (simp add: res foldResult_Num)
  have quiet: "amount c = req_amount r
      \<and> (''affinity'', modifierOf av (affinity c)) \<in> set (modifiers c)"
    if "onCollect h = (\<lambda>c. c)"
  proof -
    from that assms(2) have h: "h = noHooks"
      by (rule hooks_noHooks)
    have am: "amount c = req_amount r"
      by (simp add: c c0_def h collectMultipliers_noHooks_fields collectIncrements_fields
          resolveAffinity_fields newContext_def)
    have aff: "(''affinity'', modifierOf av (affinity c)) \<in> set (modifiers c)"
      using collectMultipliers_noHooks_affinity
        [of av "collectIncrements (resolveAffinity av (newContext r a))"]
      by (simp add: c c0_def h collectMultipliers_noHooks_fields)
    from am aff show ?thesis
      by simp
  qed
  from res num quiet show ?thesis
    by (simp add: foldResult_def)
qed

theorem calculateResult_formula_witness:
  "\<not> truthy (override_total (req_overrides (bonusAttack 1)))
   \<and> map snd (bonuses (runStages noHooks affValue_std (bonusAttack 1) (bonusTarget 1)))
       = [Num 2, Num 3, Num 1, Num 0]
   \<and> modifiers (runStages noHooks affValue_std (bonusAttack 1) (bonusTarget 1))
       = [(''affinity'', Num (1 / 2))]
   \<and> result (runStages noHooks affValue_std (bonusAttack 1) (bonusTarget 1)) = Num 8
   \<and> modifiers (runStages halvingListener affValue_std (bonusAttack 1) (bonusTarget 1))
       = [(''affinity'', Num (1 / 2)), (''halved'', Num (1 / 2))]
   \<and> result (runStages halvingListener affValue_std (bonusAttack 1) (bonusTarget 1)) = Num 4"
proof -
  let ?c = "runStages noHooks affValue_std (bonusAttack 1) (bonusTarget 1)"
  let ?d = "runStages halvingListener affValue_std (bonusAttack 1) (bonusTarget 1)"
  have h: "\<not> truthy (override_total (req_overrides (bonusAttack 1)))"
    by (simp add: example_defs)
  have q: "onCalculate noHooks = (\<lambda>c. c)" "onCalculate halvingListener = (\<lambda>c. c)"
    by (simp_all add: noHooks_def halvingListener_def)
  have a: "amount ?c = Num 10" "amount ?d = Num 10"
    by (simp_all add: example_defs stage_defs halvingListener_def)
  have b: "map snd (bonuses ?c) = map Num [2, 3, 1, 0]"
    "map snd (bonuses ?d) = map Num [2, 3, 1, 0]"
    by (simp_all add: example_defs stage_defs halvingListener_def)
  have m: "modifiers ?c = [(''affinity'', Num (1 / 2))]"
    "modifiers ?d = [(''affinity'', Num (1 / 2)), (''halved'', Num (1 / 2))]"
    by (simp_all add: example_defs stage_defs halvingListener_def)
  then have m': "map snd (modifiers ?c) = map Num [1 / 2]"
    "map snd (modifiers ?d) = map Num [1 / 2, 1 / 2]"
    by simp_all
  from calculateResult_formula [OF h q(1) refl, of affValue_std "bonusTarget 1"] a(1) b(1) m'(1)
  have "result ?c = Num ((10 + sum_list [2, 3, 1, 0]) * prod_list [1 / 2])"
    by blast
  then have c: "result ?c = Num 8"
    by simp
  from calculateResult_formula [OF h q(2) refl, of affValue_std "bonusTarget 1"] a(2) b(2) m'(2)
  have "result ?d = Num ((10 + sum_list [2, 3, 1, 0]) * prod_list [1 / 2, 1 / 2])"
    by blast
  then have d: "result ?d = Num 4"
    by simp
  from h b(1) m c d show ?thesis
    by simp
qed

text \<open>
  C4. The table maps vulnerability to 2, none to 1, resistance to 1/2, immunity to 0
  and absorption to -1, whatever five different indices the configuration gives to
  the tiers.
\<close>

theorem affinityDamageModifier_fixed:
  assumes "affValue_wf av"
  shows "modifierOf av (Num (vulnerability av)) = Num 2
    \<and> modifierOf av (Num (none av)) = Num 1
    \<and> modifierOf av (Num (resistance av)) = Num (1 / 2)
    \<and> modifierOf av (Num (immunity av)) = Num 0
    \<and> modifierOf av (Num (absorption av)) = Num (- 1)"
  using assms by (auto simp add: affValue_wf_def modifierOf_def affinityDamageModifier_def)

theorem affinityDamageModifier_fixed_witness:
  "affValue_wf affValue_std
   \<and> modifierOf affValue_std (Num (- 1)) = Num 2
   \<and> modifierOf affValue_std (Num 0) = Num 1
   \<and> modifierOf affValue_std (Num 1) = Num (1 / 2)
   \<and> modifierOf affValue_std (Num 2) = Num 0
   \<and> modifierOf affValue_std (Num 3) = Num (- 1)"
proof -
  have wf: "affValue_wf affValue_std"
    by (simp add: affValue_wf_def affValue_std_def)
  from affinityDamageModifier_fixed [OF wf] wf show ?thesis
    by (simp add: affValue_std_def)
qed

text \<open>
  C5. The resolved affinity is the looked-up one or none. A looked-up vulnerability,
  resistance, immunity or absorption whose ignore flag (or, for resistance and
  immunity, ignore trait) is set resolves to none, and with no flag and no trait set
  the looked-up affinity is kept.
\<close>

theorem resolveAffinity_downgrades:
  "(affinity (resolveAffinity av c) = lookupAffinity av c
      \<or> affinity (resolveAffinity av c) = Num (none av))
   \<and> (lookupAffinity av c = Num (vulnerability av) \<and> ignoreVulnerable (ctx_extraDamageInfo c)
        \<longrightarrow> affinity (resolveAffinity av c) = Num (none av))
   \<and> (lookupAffinity av c = Num (resistance av)
        \<and> (ignoreResistance (ctx_extraDamageInfo c) \<or> ''ignore-resistance'' \<in> traits c)
        \<longrightarrow> affinity (resolveAffinity av c) = Num (none av))
   \<and> (lookupAffinity av c = Num (immunity av)
        \<and> (ignoreImmunities (ctx_extraDamageInfo c) \<or> ''ignore-immunity'' \<in> traits c)
        \<longrightarrow> affinity (resolveAffinity av c) = Num (none av))
   \<and> (lookupAffinity av c = Num (absorption av) \<and> ignoreAbsorption (ctx_extraDamageInfo c)
        \<longrightarrow> affinity (resolveAffinity av c) = Num (none av))
   \<and> (\<not> ignoreVulnerable (ctx_extraDamageInfo c) \<and> \<not> ignoreResistance (ctx_extraDamageInfo c)
        \<and> \<not> ignoreImmunities (ctx_extraDamageInfo c) \<and> \<not> ignoreAbsorption (ctx_extraDamageInfo c)
        \<and> ''ignore-resistance'' \<notin> traits c \<and> ''ignore-immunity'' \<notin> traits c
        \<longrightarrow> affinity (resolveAffinity av c) = lookupAffinity av c)"
proof -
  define s0 where "s0 = (lookupAffinity av c, ''FU.ChatApplyDamageNormal'')"
  define s1 where "s1 = checkVulnerability av c s0"
  define s2 where "s2 = checkResistance av c s1"
  define s3 where "s3 = checkImmunity av c s2"
  define s4 where "s4 = checkAbsorption av c s3"
  have r: "affinity (resolveAffinity av c) = fst s4"
    by (simp add: affinity_resolveAffinity s0_def s1_def s2_def s3_def s4_def)
  have l: "lookupAffinity av c = fst s0"
    by (simp add: s0_def)
  have k1: "fst s1 = fst s0 \<or> fst s1 = Num (none av)"
    and k2: "fst s2 = fst s1 \<or> fst s2 = Num (none av)"
    and k3: "fst s3 = fst s2 \<or> fst s3 = Num (none av)"
    and k4: "fst s4 = fst s3 \<or> fst s4 = Num (none av)"
    unfolding s1_def s2_def s3_def s4_def by (rule check_keeps_or_none)+
  have n2: "fst s1 = Num (none av) \<Longrightarrow> fst s2 = Num (none av)"
    and n3: "fst s2 = Num (none av) \<Longrightarrow> fst s3 = Num (none av)"
    and n4: "fst s3 = Num (none av) \<Longrightarrow> fst s4 = Num (none av)"
    unfolding s2_def s3_def s4_def by (simp_all add: check_none_stays)
  have p1: "fst s4 = fst s0 \<or> fst s4 = Num (none av)"
    using k1 k2 k3 k4 n2 n3 n4 by metis
  have p2: "fst s4 = Num (none av)"
    if "fst s0 = Num (vulnerability av)" "ignoreVulnerable (ctx_extraDamageInfo c)"
  proof -
    have "fst s1 = Num (none av)"
      unfolding s1_def using that by (rule check_ignored)
    then show ?thesis using n2 n3 n4 by simp
  qed
  have p3: "fst s4 = Num (none av)"
    if "fst s0 = Num (resistance av)"
      "ignoreResistance (ctx_extraDamageInfo c) \<or> ''ignore-resistance'' \<in> traits c"
  proof -
    have "fst s1 = Num (resistance av) \<Longrightarrow> fst s2 = Num (none av)"
      unfolding s2_def using that(2) by (simp add: check_ignored)
    then have "fst s2 = Num (none av)"
      using k1 n2 that(1) by metis
    then show ?thesis using n3 n4 by simp
  qed
  have p4: "fst s4 = Num (none av)"
    if "fst s0 = Num (immunity av)"
      "ignoreImmunities (ctx_extraDamageInfo c) \<or> ''ignore-immunity'' \<in> traits c"
  proof -
    have "fst s2 = Num (immunity av) \<Longrightarrow> fst s3 = Num (none av)"
      unfolding s3_def using that(2) by (simp add: check_ignored)
    then have "fst s3 = Num (none av)"
      using k1 k2 n2 n3 that(1) by metis
    then show ?thesis using n4 by simp
  qed
  have p5: "fst s4 = Num (none av)"
    if "fst s0 = Num (absorption av)" "ignoreAbsorption (ctx_extraDamageInfo c)"
  proof -
    have "fst s3 = Num (absorption av) \<Longrightarrow> fst s4 = Num (none av)"
      unfolding s4_def using that(2) by (simp add: check_ignored)
    then show ?thesis
      using k1 k2 k3 n2 n3 n4 that(1) by metis
  qed
  have p6: "fst s4 = fst s0"
    if "\<not> ignoreVulnerable (ctx_extraDamageInfo c)" "\<not> ignoreResistance (ctx_extraDamageInfo c)"
      "\<not> ignoreImmunities (ctx_extraDamageInfo c)" "\<not> ignoreAbsorption (ctx_extraDamageInfo c)"
      "''ignore-resistance'' \<notin> traits c" "''ignore-immunity'' \<notin> traits c"
    unfolding s1_def s2_def s3_def s4_def using that by (simp add: check_not_ignored)
  from p1 p2 p3 p4 p5 p6 show ?thesis
    unfolding r l by blast
qed

theorem resolveAffinity_downgrades_witness:
  "affinity (resolveAffinity affValue_std
      (fireContext (- 1) (extraDamageInfo_empty\<lparr>ignoreVulnerable := True\<rparr>) {})) = Num 0
   \<and> affinity (resolveAffinity affValue_std
      (fireContext 1 (extraDamageInfo_empty\<lparr>ignoreResistance := True\<rparr>) {})) = Num 0
   \<and> affinity (resolveAffinity affValue_std
      (fireContext 2 extraDamageInfo_empty {''ignore-immunity''})) = Num 0
   \<and> affinity (resolveAffinity affValue_std
      (fireContext 3 (extraDamageInfo_empty\<lparr>ignoreAbsorption := True\<rparr>) {})) = Num 0
   \<and> affinity (resolveAffinity affValue_std (fireContext 1 extraDamageInfo_empty {})) = Num 1"
proof -
  let ?v = "fireContext (- 1) (extraDamageInfo_empty\<lparr>ignoreVulnerable := True\<rparr>) {}"
  let ?r = "fireContext 1 (extraDamageInfo_empty\<lparr>ignoreResistance := True\<rparr>) {}"
  let ?i = "fireContext 2 extraDamageInfo_empty {''ignore-immunity''}"
  let ?a = "fireContext 3 (extraDamageInfo_empty\<lparr>ignoreAbsorption := True\<rparr>) {}"
  let ?n = "fireContext 1 extraDamageInfo_empty {}"
  have lv: "lookupAffinity affValue_std ?v = Num (vulnerability affValue_std)"
    and fv: "ignoreVulnerable (ctx_extraDamageInfo ?v)"
    by (simp_all add: lookupAffinity_def example_defs)
  have lr: "lookupAffinity affValue_std ?r = Num (resistance affValue_std)"
    and fr: "ignoreResistance (ctx_extraDamageInfo ?r)"
    by (simp_all add: lookupAffinity_def example_defs)
  have li: "lookupAffinity affValue_std ?i = Num (immunity affValue_std)"
    and fi: "''ignore-immunity'' \<in> traits ?i"
    by (simp_all add: lookupAffinity_def example_defs)
  have la: "lookupAffinity affValue_std ?a = Num (absorption affValue_std)"
    and fa: "ignoreAbsorption (ctx_extraDamageInfo ?a)"
    by (simp_all add: lookupAffinity_def example_defs)
  have ln: "lookupAffinity affValue_std ?n = Num 1"
    and fn: "\<not> ignoreVulnerable (ctx_extraDamageInfo ?n)"
      "\<not> ignoreResistance (ctx_extraDamageInfo ?n)"
      "\<not> ignoreImmunities (ctx_extraDamageInfo ?n)"
      "\<not> ignoreAbsorption (ctx_extraDamageInfo ?n)"
      "''ignore-resistance'' \<notin> traits ?n" "''ignore-immunity'' \<notin> traits ?n"
    by (simp_all add: lookupAffinity_def example_defs)
  have n0: "none affValue_std = 0"
    by (simp add: affValue_std_def)
  have "affinity (resolveAffinity affValue_std ?v) = Num 0"
    using resolveAffinity_downgrades [of affValue_std ?v] lv fv n0 by simp
  moreover have "affinity (resolveAffinity affValue_std ?r) = Num 0"
    using resolveAffinity_downgrades [of affValue_std ?r] lr fr n0 by simp
  moreover have "affinity (resolveAffinity affValue_std ?i) = Num 0"
    using resolveAffinity_downgrades [of affValue_std ?i] li fi n0 by simp
  moreover have "affinity (resolveAffinity affValue_std ?a) = Num 0"
    using resolveAffinity_downgrades [of affValue_std ?a] la fa n0 by simp
  moreover have "affinity (resolveAffinity affValue_std ?n) = Num 1"
    using resolveAffinity_downgrades [of affValue_std ?n] ln fn by simp
  ultimately show ?thesis by simp
qed

text \<open>
  C6. Validation passes exactly when \<^verbatim>\<open>allTargets\<close> is present and \<^verbatim>\<open>targets\<close> is an
  array; it returns \<open>undefined\<close> in the first failing case and \<open>false\<close> in the second,
  both falsy. A request that fails it is rejected with no effect issued, whatever the
  hooks are, and a request that passes is never rejected.
\<close>

theorem validate_rejects_before_effects:
  "(passed (validate r) \<longleftrightarrow> truthyTargets (allTargets r) \<and> isArray (targets r))
   \<and> (validate r = None \<longleftrightarrow> \<not> truthyTargets (allTargets r))
   \<and> (validate r = Some False \<longleftrightarrow> truthyTargets (allTargets r) \<and> \<not> isArray (targets r))
   \<and> (\<not> passed (validate r) \<longrightarrow> process h av r = ([], Rejected ''Request was not valid''))
   \<and> (passed (validate r) \<longrightarrow> (\<forall>m. snd (process h av r) \<noteq> Rejected m))"
proof -
  have "snd (process h av r) \<noteq> Rejected m" if "passed (validate r)" for m
  proof -
    from that obtain as where "targets r = TargetArray as"
      using passed_targets by blast
    then show ?thesis
      by (simp add: process_valid processTargets_not_Rejected)
  qed
  then have 5: "passed (validate r) \<longrightarrow> (\<forall>m. snd (process h av r) \<noteq> Rejected m)"
    by blast
  have 1: "passed (validate r) \<longleftrightarrow> truthyTargets (allTargets r) \<and> isArray (targets r)"
    by (rule validate_passed)
  have 2: "validate r = None \<longleftrightarrow> \<not> truthyTargets (allTargets r)"
    by (auto simp add: validate_def)
  have 3: "validate r = Some False \<longleftrightarrow> truthyTargets (allTargets r) \<and> \<not> isArray (targets r)"
    by (auto simp add: validate_def)
  have 4: "\<not> passed (validate r) \<longrightarrow> process h av r = ([], Rejected ''Request was not valid'')"
    by (simp add: process_def)
  from 1 2 3 4 5 show ?thesis
    by blast
qed

theorem validate_rejects_before_effects_witness:
  "validate notArrayAttack = Some False
   \<and> process noHooks affValue_std notArrayAttack = ([], Rejected ''Request was not valid'')
   \<and> validate noTargetsAttack = None
   \<and> process noHooks affValue_std noTargetsAttack = ([], Rejected ''Request was not valid'')"
proof -
  have a: "truthyTargets (allTargets notArrayAttack)" "\<not> isArray (targets notArrayAttack)"
    by (simp_all add: notArrayAttack_def allTargets_def example_defs)
  have b: "\<not> truthyTargets (allTargets noTargetsAttack)"
    by (simp add: noTargetsAttack_def allTargets_def example_defs)
  from validate_rejects_before_effects [of notArrayAttack noHooks affValue_std] a
  have "validate notArrayAttack = Some False
    \<and> process noHooks affValue_std notArrayAttack = ([], Rejected ''Request was not valid'')"
    by simp
  moreover
  from validate_rejects_before_effects [of noTargetsAttack noHooks affValue_std] b
  have "validate noTargetsAttack = None
    \<and> process noHooks affValue_std noTargetsAttack = ([], Rejected ''Request was not valid'')"
    by simp
  ultimately show ?thesis
    by simp
qed

text \<open>
  C10. With no listener on the hooks, every target of a request that passes validation
  gets a result of type number, never \<open>undefined\<close>: \<^verbatim>\<open>process\<close> resolves and the
  \<^verbatim>\<open>throw\<close> of line 246 is not reached.
\<close>

theorem result_always_defined:
  assumes "passed (validate r)"
  shows "(\<forall>a. isNumber (result (runStages noHooks av r a))
            \<and> result (runStages noHooks av r a) \<noteq> Undefined)
    \<and> snd (process noHooks av r) = Resolved
    \<and> (\<forall>m. snd (process noHooks av r) \<noteq> Thrown m)"
proof -
  from assms obtain as where "targets r = TargetArray as"
    using passed_targets by blast
  then have "snd (process noHooks av r) = Resolved"
    by (simp add: process_valid processTargets_noHooks)
  then show ?thesis
    by (simp add: runStages_noHooks_isNumber isNumber_not_Undefined)
qed

theorem result_always_defined_witness:
  "passed (validate (fireAttack (Num 10) 1 extraDamageInfo_empty))
   \<and> result (runStages noHooks affValue_std (fireAttack (Num 10) 1 extraDamageInfo_empty)
        (fireTarget 1)) \<noteq> Undefined
   \<and> snd (process noHooks affValue_std (fireAttack (Num 10) 1 extraDamageInfo_empty)) = Resolved"
proof -
  have v: "passed (validate (fireAttack (Num 10) 1 extraDamageInfo_empty))"
    by (simp add: validate_def allTargets_def example_defs)
  from result_always_defined [OF v, of affValue_std] v show ?thesis
    by blast
qed




text \<open>
  C9. The target-list override of the extra damage descriptor is what \<^verbatim>\<open>allTargets\<close>
  returns, but \<^verbatim>\<open>process\<close> does the same with and without it: with no listener on
  the hooks the effects and the outcome are equal, and under any hooks a run that
  resolves has updated the pools of exactly the actors of \<^verbatim>\<open>request.targets\<close>, in
  order, and has written one chat record for each.
\<close>

theorem process_targets_only:
  "process noHooks av (withExtraTargets r X) = process noHooks av r
   \<and> (truthyTargets X \<longrightarrow> allTargets (withExtraTargets r X) = X)
   \<and> (targets r = TargetArray as \<and> process h av (withExtraTargets r X) = (es, Resolved)
        \<longrightarrow> map fst (hpDeltas es) = as \<and> chatActors es = as)
   \<and> (targets r = TargetArray as
        \<longrightarrow> map fst (hpDeltas (fst (process noHooks av (withExtraTargets r X)))) = as
          \<and> chatActors (fst (process noHooks av (withExtraTargets r X))) = as)"
proof -
  have 1: "allTargets (withExtraTargets r X) = X" if "truthyTargets X"
    using that by (simp add: allTargets_def withExtraTargets_def)
  have 2: "map fst (hpDeltas es) = as \<and> chatActors es = as"
    if "targets r = TargetArray as" "process h av (withExtraTargets r X) = (es, Resolved)"
  proof -
    from that have "processTargets h av (withExtraTargets r X) as [] = (es, Resolved)"
      by (simp add: process_valid withExtraTargets_targets)
    from processTargets_Resolved [OF this] show ?thesis
      by (simp add: hpDeltas_targetUpdates chatActors_targetUpdates comp_def)
  qed
  have 3: "map fst (hpDeltas (fst (process noHooks av (withExtraTargets r X)))) = as
      \<and> chatActors (fst (process noHooks av (withExtraTargets r X))) = as"
    if "targets r = TargetArray as"
  proof -
    from that have "targets (withExtraTargets r X) = TargetArray as"
      by (simp add: withExtraTargets_targets)
    then show ?thesis
      by (simp add: process_noHooks_Resolved hpDeltas_targetUpdates chatActors_targetUpdates
          comp_def)
  qed
  from process_extra_targets 1 2 3 show ?thesis
    by blast
qed

theorem process_targets_only_witness:
  "truthyTargets (TargetArray [bonusTarget 0, bonusTarget 1])
   \<and> allTargets (withExtraTargets (fireAttack (Num 10) 1 extraDamageInfo_empty)
        (TargetArray [bonusTarget 0, bonusTarget 1]))
       = TargetArray [bonusTarget 0, bonusTarget 1]
   \<and> map fst (hpDeltas (fst (process noHooks affValue_std
        (withExtraTargets (fireAttack (Num 10) 1 extraDamageInfo_empty)
           (TargetArray [bonusTarget 0, bonusTarget 1])))))
       = [fireTarget 1]
   \<and> chatActors (fst (process noHooks affValue_std
        (withExtraTargets (fireAttack (Num 10) 1 extraDamageInfo_empty)
           (TargetArray [bonusTarget 0, bonusTarget 1]))))
       = [fireTarget 1]"
proof -
  let ?r = "fireAttack (Num 10) 1 extraDamageInfo_empty"
  let ?X = "TargetArray [bonusTarget 0, bonusTarget 1]"
  have t: "truthyTargets ?X"
    by simp
  have ts: "targets ?r = TargetArray [fireTarget 1]"
    by (simp add: example_defs)
  from process_targets_only [of affValue_std ?r ?X "[fireTarget 1]"] t ts show ?thesis
    by blast
qed

text \<open>
  C3. An override total of 0 is falsy for the test of line 151: \<^verbatim>\<open>overrideResult\<close>
  returns \<open>false\<close>, the collection and calculation stages run, and the target of a
  fire attack of amount 10 gets the result 10, with the affinity modifier collected,
  instead of the override 0.
\<close>

theorem override_total_zero_not_applied:
  "override_total (req_overrides (overrideAttack (Num 0))) = Num 0
   \<and> snd (overrideResult (resolveAffinity affValue_std
        (newContext (overrideAttack (Num 0)) (fireTarget 0)))) = False
   \<and> result (runStages noHooks affValue_std (overrideAttack (Num 0)) (fireTarget 0)) = Num 10
   \<and> modifiers (runStages noHooks affValue_std (overrideAttack (Num 0)) (fireTarget 0))
       = [(''affinity'', Num 1)]
   \<and> result (runStages noHooks affValue_std (overrideAttack (Num 99)) (fireTarget 0)) = Num 99
   \<and> modifiers (runStages noHooks affValue_std (overrideAttack (Num 99)) (fireTarget 0)) = []"
  by (simp add: overrideAttack_def example_defs stage_defs)

text \<open>
  C7. With \<^verbatim>\<open>hrZero\<close> set and no \<^verbatim>\<open>damageBonus\<close>, the amount is
  \<^verbatim>\<open>undefined + modifierTotal + (extraDamage || 0)\<close>, which is \<open>NaN\<close>: the \<^verbatim>\<open>hrZero\<close>
  branch of line 32 lacks the \<^verbatim>\<open>|| 0\<close> that the other branch puts on
  \<^verbatim>\<open>damageBonus\<close>. Here the modifier total is 3 and the extra damage 2; with a
  damage bonus of 1 the amount is 6, and without \<^verbatim>\<open>hrZero\<close> the absent bonus counts
  as 0.
\<close>

theorem hrZero_absent_bonus_is_NaN:
  "req_amount (fireAttack (Num 10) 0
      (extraDamageInfo_empty\<lparr>hrZero := True, extraDamage := Num 2\<rparr>)) = NaN
   \<and> req_amount (fireAttack (Num 10) 0
      (extraDamageInfo_empty\<lparr>hrZero := True, damageBonus := Num 1, extraDamage := Num 2\<rparr>)) = Num 6
   \<and> req_amount (fireAttack (Num 10) 0 (extraDamageInfo_empty\<lparr>extraDamage := Num 2\<rparr>)) = Num 12"
  by (simp add: example_defs)

text \<open>
  C8. A looked-up vulnerability with the ignore-vulnerable flag set resolves to none,
  but the message stays \<^verbatim>\<open>FU.ChatApplyDamageVulnerable\<close>: line 112 assigns it before
  the flag is tested. An ignored absorption, and a target with no affinity, get
  \<^verbatim>\<open>FU.ChatApplyDamageNormal\<close>.
\<close>

theorem vulnerable_ignored_keeps_message:
  "affinity (resolveAffinity affValue_std
      (fireContext (- 1) (extraDamageInfo_empty\<lparr>ignoreVulnerable := True\<rparr>) {})) = Num 0
   \<and> affinityMessage (resolveAffinity affValue_std
      (fireContext (- 1) (extraDamageInfo_empty\<lparr>ignoreVulnerable := True\<rparr>) {}))
       = Some ''FU.ChatApplyDamageVulnerable''
   \<and> affinityMessage (resolveAffinity affValue_std
      (fireContext 3 (extraDamageInfo_empty\<lparr>ignoreAbsorption := True\<rparr>) {}))
       = Some ''FU.ChatApplyDamageNormal''
   \<and> affinityMessage (resolveAffinity affValue_std (fireContext 0 extraDamageInfo_empty {}))
       = Some ''FU.ChatApplyDamageNormal''"
  by (simp add: example_defs stage_defs)

end
